theory Spec2Isabelle
  imports Complex_Main "HOL-Library.Sublist"
begin

section \<open>Data model of App.tsx\<close>

text \<open>
  The component keeps its state in React state variables and refs; its handlers also act on
  the browser (object URLs, the clipboard) and on the Tesseract worker. All of it is one
  record that every handler takes and returns. An asynchronous handler is cut at each
  \<^verbatim>\<open>await\<close>: the part before it and the part that runs once the promise has settled
  are separate functions, the second taking the promise's outcome (\<open>Inl\<close> a rejection,
  \<open>Inr\<close> the value).
\<close>

datatype Stage = Idle | Initializing | Recognizing | Done

text \<open>An object URL, as \<^verbatim>\<open>URL.createObjectURL\<close> hands them out: only its identity matters.\<close>

datatype url = BlobUrl nat

text \<open>\<^verbatim>\<open>File | Blob\<close>: a MIME type and the content.\<close>

datatype blob = Blob (blob_type: string) (blob_data: string)

datatype worker = Worker nat

text \<open>
  What a rejected promise carries. The source only asks \<^verbatim>\<open>err instanceof Error\<close> and
  reads \<^verbatim>\<open>err.name\<close>.
\<close>

datatype thrown = ErrorObject (err_name: string) | NonError

text \<open>\<^verbatim>\<open>Tesseract.LoggerMessage\<close>\<close>

record LoggerMessage =
  lm_status :: string
  lm_progress :: real
  jobId :: string

text \<open>The value of the state variable \<^verbatim>\<open>progress\<close>: \<^verbatim>\<open>{ status, progress }\<close>.\<close>

record ProgressState =
  status :: string
  fraction :: real

text \<open>
  A \<^verbatim>\<open>ClipboardItem\<close>: its \<^verbatim>\<open>types\<close> and \<^verbatim>\<open>getType\<close>, whose promise may reject.
\<close>

datatype ClipboardItem = ClipboardItem (types: "string list") (getType: "string \<Rightarrow> thrown + blob")

text \<open>The hidden file input: its \<^verbatim>\<open>value\<close> and its \<^verbatim>\<open>capture\<close> attribute.\<close>

record InputElement =
  input_value :: string
  capture :: "string option"

text \<open>
  The state variables \<^verbatim>\<open>image\<close> and \<^verbatim>\<open>text\<close> carry a prime here, both names being
  taken. Numbers are reals: the handlers only store them.
\<close>

record App =
  \<comment> \<open>React state (\<^verbatim>\<open>useState\<close>)\<close>
  image' :: "url option"
  text' :: string
  error :: "string option"
  stage :: Stage
  progress :: ProgressState
  workerReady :: bool
  copyButtonText :: string
  \<comment> \<open>refs (\<^verbatim>\<open>useRef\<close>)\<close>
  workerRef :: "worker option"
  inputRef :: "InputElement option"
  \<comment> \<open>browser: object URLs created and not revoked; how many were ever created\<close>
  object_urls :: "url set"
  urls_created :: nat
  \<comment> \<open>engine: \<^verbatim>\<open>recognize\<close> calls not yet settled, oldest first; workers terminated\<close>
  recognize_jobs :: "blob list"
  terminated :: "worker list"
  \<comment> \<open>clipboard: texts written; pending 2 s timers of \<^verbatim>\<open>handleCopy\<close>\<close>
  clipboard_written :: "string list"
  copy_timers :: nat
  \<comment> \<open>\<^verbatim>\<open>navigator.clipboard.read()\<close> calls not yet settled, each with the \<^verbatim>\<open>image\<close> of
      the render whose \<^verbatim>\<open>handlePaste\<close> issued it\<close>
  pending_reads :: "url option list"
  \<comment> \<open>the file dialog that \<^verbatim>\<open>inputRef.current.click()\<close> opened is showing\<close>
  dialog_open :: bool

section \<open>The fixed messages\<close>

text \<open>
  The three bytes that the source file holds between \<^verbatim>\<open>unterst\<close> and \<^verbatim>\<open>tzt\<close>, and
  between \<^verbatim>\<open>Einf\<close> and \<^verbatim>\<open>gen\<close>.
\<close>

definition src_bytes :: string where
  "src_bytes = [CHR 0xE7, CHR 0xAB, CHR 0xAF]"

definition msg_init_failed :: string where
  "msg_init_failed =
     ''Tesseract.js konnte nicht initialisiert werden. Bitte laden Sie die Seite neu.''"

definition msg_recognition_failed :: string where
  "msg_recognition_failed =
     ''Fehler bei der Texterkennung. Versuchen Sie es mit einem anderen Bild.''"

definition msg_clipboard_unsupported :: string where
  "msg_clipboard_unsupported =
     ''Die Zwischenablage-API wird von Ihrem Browser nicht unterst'' @ src_bytes @ ''tzt.''"

definition msg_no_image :: string where
  "msg_no_image = ''Kein Bild in der Zwischenablage gefunden.''"

definition msg_clipboard_denied :: string where
  "msg_clipboard_denied = ''Zugriff auf die Zwischenablage wurde verweigert.''"

definition msg_paste_failed :: string where
  "msg_paste_failed = ''Fehler beim Einf'' @ src_bytes @ ''gen aus der Zwischenablage.''"

section \<open>The handlers\<close>

subsection \<open>Progress relay and engine life cycle\<close>

definition updateProgress :: "LoggerMessage \<Rightarrow> App \<Rightarrow> App" where
  "updateProgress m s = s\<lparr>progress := \<lparr>status = lm_status m, fraction = lm_progress m\<rparr>\<rparr>"

text \<open>
  \<^verbatim>\<open>initializeWorker\<close> up to its first \<^verbatim>\<open>await\<close>, and from the point where
  \<^verbatim>\<open>createWorker\<close>, \<^verbatim>\<open>loadLanguage\<close> and \<^verbatim>\<open>initialize\<close> have all resolved (\<open>Inr\<close>
  the worker) or one of them has rejected (\<open>Inl\<close>).
\<close>

definition initializeWorker_start :: "App \<Rightarrow> App" where
  "initializeWorker_start s = s\<lparr>stage := Initializing\<rparr>"

definition initializeWorker_settled :: "thrown + worker \<Rightarrow> App \<Rightarrow> App" where
  "initializeWorker_settled r s =
     (case r of
        Inr w \<Rightarrow> s\<lparr>workerRef := Some w, workerReady := True, stage := Idle\<rparr>
      | Inl err \<Rightarrow> s\<lparr>error := Some msg_init_failed, stage := Idle\<rparr>)"

text \<open>The function that the effect returns: React runs it when the component unmounts.\<close>

definition cleanup :: "App \<Rightarrow> App" where
  "cleanup s =
     (case workerRef s of
        Some w \<Rightarrow> s\<lparr>terminated := terminated s @ [w], workerRef := None\<rparr>
      | None \<Rightarrow> s\<lparr>workerRef := None\<rparr>)"

subsection \<open>Object URLs\<close>

definition revokeObjectURL :: "url \<Rightarrow> App \<Rightarrow> App" where
  "revokeObjectURL u s = s\<lparr>object_urls := object_urls s - {u}\<rparr>"

definition createObjectURL :: "blob \<Rightarrow> App \<Rightarrow> url \<times> App" where
  "createObjectURL b s =
     (BlobUrl (urls_created s),
      s\<lparr>object_urls := insert (BlobUrl (urls_created s)) (object_urls s),
        urls_created := Suc (urls_created s)\<rparr>)"

subsection \<open>processImage\<close>

text \<open>
  \<^verbatim>\<open>processImage\<close> reads two things: \<^verbatim>\<open>workerRef.current\<close>, which is the ref's value at
  the time of the call, and \<^verbatim>\<open>image\<close>, which is the constant of the render that created
  this \<^verbatim>\<open>processImage\<close>. The latter is the parameter \<open>img\<close>. A handler that React calls
  directly belongs to the latest render, so there \<open>img\<close> is the current state
  (\<open>handleFileSelect\<close>); \<^verbatim>\<open>handlePaste\<close> calls it after an \<^verbatim>\<open>await\<close>, with the
  \<^verbatim>\<open>image\<close> of the render in which the button was clicked.

  \<open>processImage_start\<close> is the body up to \<^verbatim>\<open>await workerRef.current.recognize(imageFile)\<close>,
  \<open>processImage_settled\<close> the rest.
\<close>

definition processImage_start :: "url option \<Rightarrow> blob \<Rightarrow> App \<Rightarrow> App" where
  "processImage_start img imageFile s =
     (case workerRef s of
        None \<Rightarrow> s
      | Some w \<Rightarrow>
          let s1 = s\<lparr>error := None, text' := '''', stage := Recognizing\<rparr>;
              s2 = (case img of Some u \<Rightarrow> revokeObjectURL u s1 | None \<Rightarrow> s1);
              (imageUrl, s3) = createObjectURL imageFile s2;
              s4 = s3\<lparr>image' := Some imageUrl\<rparr>
          in s4\<lparr>recognize_jobs := recognize_jobs s4 @ [imageFile]\<rparr>)"

definition processImage_settled :: "thrown + string \<Rightarrow> App \<Rightarrow> App" where
  "processImage_settled r s =
     (let s1 = s\<lparr>recognize_jobs := tl (recognize_jobs s)\<rparr>
      in case r of
           Inr data_text \<Rightarrow> s1\<lparr>text' := data_text, stage := Done\<rparr>
         | Inl err \<Rightarrow> s1\<lparr>error := Some msg_recognition_failed, stage := Idle\<rparr>)"

text \<open>\<^verbatim>\<open>event.target.files?.[0]\<close> is the argument: \<open>None\<close> when no file was chosen.\<close>

definition handleFileSelect :: "blob option \<Rightarrow> App \<Rightarrow> App" where
  "handleFileSelect file s =
     (case file of Some f \<Rightarrow> processImage_start (image' s) f s | None \<Rightarrow> s)"

subsection \<open>handlePaste\<close>

text \<open>
  The \<^verbatim>\<open>for\<close> loop over \<^verbatim>\<open>clipboardItems\<close>: the first item that has a type starting
  with \<^verbatim>\<open>image/\<close> decides. Its \<^verbatim>\<open>getType\<close> is awaited inside the \<^verbatim>\<open>try\<close>, so a
  rejection leaves the loop as a throw.
\<close>

fun scan_clipboardItems :: "ClipboardItem list \<Rightarrow> thrown + blob option" where
  "scan_clipboardItems [] = Inr None"
| "scan_clipboardItems (item # rest) =
     (case find (prefix ''image/'') (types item) of
        Some imageType \<Rightarrow>
          (case getType item imageType of
             Inl err \<Rightarrow> Inl err
           | Inr imageBlob \<Rightarrow> Inr (Some imageBlob))
      | None \<Rightarrow> scan_clipboardItems rest)"

text \<open>
  The \<^verbatim>\<open>try\<close> block from the point where \<^verbatim>\<open>navigator.clipboard.read()\<close> has settled
  with \<open>r\<close>. \<open>Inl\<close> is a throw; every throw point comes before the first state update.
  \<^verbatim>\<open>await processImage(imageBlob)\<close> cannot throw: \<^verbatim>\<open>processImage\<close> catches the rejection
  of \<^verbatim>\<open>recognize\<close> itself, and nothing follows it in \<^verbatim>\<open>handlePaste\<close>.
\<close>

definition handlePaste_try :: "url option \<Rightarrow> thrown + ClipboardItem list \<Rightarrow> App \<Rightarrow> thrown + App" where
  "handlePaste_try img r s =
     (case r of
        Inl err \<Rightarrow> Inl err
      | Inr clipboardItems \<Rightarrow>
          (case scan_clipboardItems clipboardItems of
             Inl err \<Rightarrow> Inl err
           | Inr (Some imageBlob) \<Rightarrow> Inr (processImage_start img imageBlob s)
           | Inr None \<Rightarrow> Inr (s\<lparr>error := Some msg_no_image\<rparr>)))"

definition handlePaste_catch :: "thrown \<Rightarrow> App \<Rightarrow> App" where
  "handlePaste_catch err s =
     (case err of
        ErrorObject name \<Rightarrow>
          if name = ''NotAllowedError'' then s\<lparr>error := Some msg_clipboard_denied\<rparr>
          else s\<lparr>error := Some msg_paste_failed\<rparr>
      | NonError \<Rightarrow> s\<lparr>error := Some msg_paste_failed\<rparr>)"

text \<open>
  \<^verbatim>\<open>handlePaste\<close> from the settling of the clipboard read to its end. It runs on the
  state of that moment, which other handlers may have changed since the click; \<open>img\<close> is
  the \<^verbatim>\<open>image\<close> of the render of the click.
\<close>

definition handlePaste_resume :: "url option \<Rightarrow> thrown + ClipboardItem list \<Rightarrow> App \<Rightarrow> App" where
  "handlePaste_resume img r s =
     (case handlePaste_try img r s of
        Inr s' \<Rightarrow> s'
      | Inl err \<Rightarrow> handlePaste_catch err s)"

text \<open>
  \<^verbatim>\<open>handlePaste\<close> up to \<^verbatim>\<open>await navigator.clipboard.read()\<close>. The argument tells
  whether \<^verbatim>\<open>navigator.clipboard?.read\<close> exists. Without it the handler sets its message
  and returns; with it the read is issued, and the \<^verbatim>\<open>image\<close> of this render is what the
  rest of the handler will see.
\<close>

definition handlePaste_click :: "bool \<Rightarrow> App \<Rightarrow> App" where
  "handlePaste_click has_read s =
     (if \<not> has_read then s\<lparr>error := Some msg_clipboard_unsupported\<rparr>
      else s\<lparr>pending_reads := pending_reads s @ [image' s]\<rparr>)"

subsection \<open>Reset, copy, file dialog\<close>

definition handleReset :: "App \<Rightarrow> App" where
  "handleReset s =
     (let s1 = (case image' s of Some u \<Rightarrow> revokeObjectURL u s | None \<Rightarrow> s)
      in s1\<lparr>image' := None, text' := '''', error := None, stage := Idle,
            progress := \<lparr>status = '''', fraction = 0\<rparr>,
            inputRef := (case inputRef s1 of
                           Some el \<Rightarrow> Some (el\<lparr>input_value := ''''\<rparr>)
                         | None \<Rightarrow> None)\<rparr>)"

text \<open>
  \<^verbatim>\<open>navigator.clipboard.writeText\<close> is called unguarded: without a clipboard object the
  handler ends with a \<^verbatim>\<open>TypeError\<close> before any update.
\<close>

definition handleCopy :: "bool \<Rightarrow> App \<Rightarrow> thrown + App" where
  "handleCopy has_clipboard s =
     (if has_clipboard
      then Inr (s\<lparr>clipboard_written := clipboard_written s @ [text' s],
                 copyButtonText := ''Kopiert!'',
                 copy_timers := Suc (copy_timers s)\<rparr>)
      else Inl (ErrorObject ''TypeError''))"

definition copy_timeout :: "App \<Rightarrow> App" where
  "copy_timeout s = s\<lparr>copyButtonText := ''Kopieren'', copy_timers := copy_timers s - 1\<rparr>"

text \<open>
  \<^verbatim>\<open>triggerFileUpload\<close> sets or removes the \<^verbatim>\<open>capture\<close> attribute and clicks the input,
  which opens the file dialog.
\<close>

definition triggerFileUpload :: "bool \<Rightarrow> App \<Rightarrow> App" where
  "triggerFileUpload cap s =
     (case inputRef s of
        Some el \<Rightarrow>
          s\<lparr>inputRef := Some (el\<lparr>capture := (if cap then Some ''environment'' else None)\<rparr>),
            dialog_open := True\<rparr>
      | None \<Rightarrow> s)"

subsection \<open>What is rendered\<close>

definition isProcessing :: "App \<Rightarrow> bool" where
  "isProcessing s = (stage s = Initializing \<or> stage s = Recognizing)"

text \<open>\<^verbatim>\<open>stage !== 'done' && !text\<close>: the three buttons and the file input.\<close>

definition acquisition_rendered :: "App \<Rightarrow> bool" where
  "acquisition_rendered s = (stage s \<noteq> Done \<and> text' s = '''')"

text \<open>\<^verbatim>\<open>disabled={!workerReady || isProcessing}\<close> on each of the three buttons.\<close>

definition acquisition_disabled :: "App \<Rightarrow> bool" where
  "acquisition_disabled s = (\<not> workerReady s \<or> isProcessing s)"

definition acquisition_clickable :: "App \<Rightarrow> bool" where
  "acquisition_clickable s = (acquisition_rendered s \<and> \<not> acquisition_disabled s)"

text \<open>\<^verbatim>\<open>{image && ...}\<close>, \<^verbatim>\<open>{text && ...}\<close> (result, copy and reset buttons).\<close>

definition preview_rendered :: "App \<Rightarrow> bool" where
  "preview_rendered s = (image' s \<noteq> None)"

definition result_rendered :: "App \<Rightarrow> bool" where
  "result_rendered s = (text' s \<noteq> '''')"

text \<open>
  \<^verbatim>\<open>ref={inputRef}\<close>: React sets the ref when the input is mounted and clears it when the
  input leaves the tree. A dialog of an input that has left the tree no longer reaches
  \<^verbatim>\<open>handleFileSelect\<close>.
\<close>

definition attach_refs :: "App \<Rightarrow> App" where
  "attach_refs s =
     (if acquisition_rendered s
      then s\<lparr>inputRef :=
               (case inputRef s of
                  None \<Rightarrow> Some \<lparr>input_value = '''', capture = None\<rparr>
                | Some el \<Rightarrow> Some el)\<rparr>
      else s\<lparr>inputRef := None, dialog_open := False\<rparr>)"

section \<open>The component as a transition system\<close>

text \<open>
  What can happen to a mounted component, one event at a time: a promise settles, the
  engine reports progress, the user clicks or chooses a file. A click counts only where
  the JSX renders the control and does not disable it; a promise settles only if it is
  pending; a file is chosen only in an open dialog. An event that cannot happen leaves the
  state as it is. The handlers themselves test nothing more than the source does:
  \<^verbatim>\<open>updateProgress\<close> and \<^verbatim>\<open>handleFileSelect\<close> run in whatever state their event finds.

  \<open>UploadClick\<close> is a click on one of the two file buttons, \<open>FileChosen\<close> the outcome
  of the dialog (\<open>None\<close> when it is dismissed). \<open>PasteClick\<close> issues
  \<^verbatim>\<open>navigator.clipboard.read()\<close> and \<open>ClipboardSettled\<close> is its outcome. Other events may
  come between a click and its outcome, as at any \<^verbatim>\<open>await\<close>. Pending reads and pending
  recognitions settle oldest first.
\<close>

datatype Event =
    InitSettled "thrown + worker"
  | Progress LoggerMessage
  | UploadClick bool
  | FileChosen "blob option"
  | PasteClick bool
  | ClipboardSettled "thrown + ClipboardItem list"
  | RecognizeSettled "thrown + string"
  | ResetClick
  | CopyClick bool
  | CopyTimeout

definition handle :: "Event \<Rightarrow> App \<Rightarrow> App" where
  "handle e s =
     (case e of
        InitSettled r \<Rightarrow>
          if stage s = Initializing then initializeWorker_settled r s else s
      | Progress m \<Rightarrow> updateProgress m s
      | UploadClick cap \<Rightarrow>
          if acquisition_clickable s then triggerFileUpload cap s else s
      | FileChosen file \<Rightarrow>
          if dialog_open s then handleFileSelect file (s\<lparr>dialog_open := False\<rparr>) else s
      | PasteClick has_read \<Rightarrow>
          if acquisition_clickable s then handlePaste_click has_read s else s
      | ClipboardSettled r \<Rightarrow>
          (case pending_reads s of
             [] \<Rightarrow> s
           | img # rest \<Rightarrow> handlePaste_resume img r (s\<lparr>pending_reads := rest\<rparr>))
      | RecognizeSettled r \<Rightarrow>
          if recognize_jobs s = [] then s else processImage_settled r s
      | ResetClick \<Rightarrow>
          if result_rendered s then handleReset s else s
      | CopyClick has_clipboard \<Rightarrow>
          if result_rendered s
          then (case handleCopy has_clipboard s of Inr s' \<Rightarrow> s' | Inl err \<Rightarrow> s)
          else s
      | CopyTimeout \<Rightarrow>
          if copy_timers s = 0 then s else copy_timeout s)"

definition step :: "Event \<Rightarrow> App \<Rightarrow> App" where
  "step e s = attach_refs (handle e s)"

text \<open>The initial values of the \<^verbatim>\<open>useState\<close> and \<^verbatim>\<open>useRef\<close> calls, in an empty browser.\<close>

definition initial :: App where
  "initial =
     \<lparr>image' = None, text' = '''', error = None, stage = Idle,
      progress = \<lparr>status = '''', fraction = 0\<rparr>,
      workerReady = False, copyButtonText = ''Kopieren'',
      workerRef = None, inputRef = None,
      object_urls = {}, urls_created = 0,
      recognize_jobs = [], terminated = [],
      clipboard_written = [], copy_timers = 0,
      pending_reads = [], dialog_open = False\<rparr>"

text \<open>After the first render and its effect, which starts \<^verbatim>\<open>initializeWorker\<close>.\<close>

definition mounted :: App where
  "mounted = attach_refs (initializeWorker_start (attach_refs initial))"

definition run_from :: "App \<Rightarrow> Event list \<Rightarrow> App" where
  "run_from s evs = foldl (\<lambda>s e. step e s) s evs"

definition run :: "Event list \<Rightarrow> App" where
  "run evs = run_from mounted evs"

text \<open>
  Unmounting ends the component, so it is not an event of the system: \<open>cleanup\<close> is
  studied on its own.
\<close>

section \<open>Properties of states and of runs\<close>

text \<open>
  Following the spec's words: the first clipboard entry that has a type beginning with the
  image prefix.
\<close>

definition first_image_item :: "ClipboardItem list \<Rightarrow> ClipboardItem option" where
  "first_image_item items = find (\<lambda>item. \<exists>t \<in> set (types item). prefix ''image/'' t) items"

text \<open>The outcome of the clipboard read does not lead to a submission.\<close>

definition paste_fails :: "thrown + ClipboardItem list \<Rightarrow> bool" where
  "paste_fails r =
     (case r of
        Inl err \<Rightarrow> True
      | Inr clipboardItems \<Rightarrow>
          (case scan_clipboardItems clipboardItems of
             Inr (Some imageBlob) \<Rightarrow> False
           | Inr None \<Rightarrow> True
           | Inl err \<Rightarrow> True))"

text \<open>
  Every object URL that the state mentions (live, shown, or remembered by a pending paste)
  was handed out before: the next \<^verbatim>\<open>createObjectURL\<close> returns none of them.
\<close>

fun url_index :: "url \<Rightarrow> nat" where
  "url_index (BlobUrl n) = n"

definition urls_known :: "App \<Rightarrow> bool" where
  "urls_known s =
     (\<forall>u \<in> object_urls s \<union> set_option (image' s) \<union> \<Union> (set_option ` set (pending_reads s)).
        url_index u < urls_created s)"

text \<open>
  The engine handle is held whenever the engine counts as ready, a paste is pending or a
  file dialog is open; the file input is mounted whenever the view renders it.
\<close>

definition worker_held :: "App \<Rightarrow> bool" where
  "worker_held s =
     ((workerReady s \<or> pending_reads s \<noteq> [] \<or> dialog_open s) \<longrightarrow> workerRef s \<noteq> None)"

definition input_mounted :: "App \<Rightarrow> bool" where
  "input_mounted s = (acquisition_rendered s \<longrightarrow> inputRef s \<noteq> None)"

text \<open>
  Every paste click that starts a clipboard read is directly followed by the settling of
  that read, and every click on a file button by the outcome of its dialog: nothing else
  is handled while the clipboard is being read or a file is being chosen.
\<close>

fun acquisitions_atomic :: "Event list \<Rightarrow> bool" where
  "acquisitions_atomic [] = True"
| "acquisitions_atomic (PasteClick True # ClipboardSettled r # evs) = acquisitions_atomic evs"
| "acquisitions_atomic (PasteClick True # evs) = False"
| "acquisitions_atomic (UploadClick cap # FileChosen file # evs) = acquisitions_atomic evs"
| "acquisitions_atomic (UploadClick cap # evs) = False"
| "acquisitions_atomic (e # evs) = acquisitions_atomic evs"

text \<open>What each stage says about the other state variables.\<close>

definition stage_inv :: "App \<Rightarrow> bool" where
  "stage_inv s =
     (case stage s of
        Idle \<Rightarrow> text' s = '''' \<and> recognize_jobs s = []
      | Initializing \<Rightarrow> text' s = '''' \<and> error s = None \<and> recognize_jobs s = []
      | Recognizing \<Rightarrow> text' s = '''' \<and> error s = None \<and> length (recognize_jobs s) = 1
      | Done \<Rightarrow> error s = None \<and> recognize_jobs s = [])"

definition app_inv :: "App \<Rightarrow> bool" where
  "app_inv s =
     (pending_reads s = [] \<and> \<not> dialog_open s \<and> object_urls s = set_option (image' s) \<and>
      stage_inv s)"

section \<open>Concrete inputs and states\<close>

definition photo_png :: blob where
  "photo_png = Blob ''image/png'' ''photo''"

definition second_png :: blob where
  "second_png = Blob ''image/png'' ''second''"

definition pasted_png :: blob where
  "pasted_png = Blob ''image/png'' ''clip''"

definition worker0 :: worker where
  "worker0 = Worker 0"

definition clip_getType :: "string \<Rightarrow> thrown + blob" where
  "clip_getType t = Inr (Blob t ''clip'')"

definition text_item :: ClipboardItem where
  "text_item = ClipboardItem [''text/plain'', ''text/html''] clip_getType"

definition image_item :: ClipboardItem where
  "image_item = ClipboardItem [''text/html'', ''image/png'', ''image/jpeg''] clip_getType"

definition init_done_msg :: LoggerMessage where
  "init_done_msg = \<lparr>lm_status = ''initialized api'', lm_progress = 1, jobId = ''''\<rparr>"

text \<open>The engine is ready and nothing has been submitted yet.\<close>

definition ready_state :: App where
  "ready_state = run [InitSettled (Inr worker0)]"

text \<open>A file was chosen and its recognition has not settled.\<close>

definition recognizing_state :: App where
  "recognizing_state =
     run [InitSettled (Inr worker0), UploadClick False, FileChosen (Some photo_png)]"

text \<open>A result is shown, and an error message as well.\<close>

definition stale_state :: App where
  "stale_state =
     (run [InitSettled (Inr worker0), UploadClick False, FileChosen (Some photo_png),
           RecognizeSettled (Inr ''Hallo Welt'')])\<lparr>error := Some msg_paste_failed\<rparr>"

text \<open>The engine reports the end of its initialization, then a file is chosen.\<close>

definition stale_progress_trace :: "Event list" where
  "stale_progress_trace =
     [Progress init_done_msg, InitSettled (Inr worker0), UploadClick False,
      FileChosen (Some photo_png)]"

text \<open>The engine finds no text in the image.\<close>

definition empty_result_trace :: "Event list" where
  "empty_result_trace =
     [InitSettled (Inr worker0), UploadClick False, FileChosen (Some photo_png),
      RecognizeSettled (Inr '''')]"

text \<open>
  The paste button is clicked twice before the first clipboard read settles; the first
  read delivers an image.
\<close>

definition first_paste_submitted :: "Event list" where
  "first_paste_submitted =
     [InitSettled (Inr worker0), PasteClick True, PasteClick True,
      ClipboardSettled (Inr [image_item])]"

text \<open>Then the second read delivers an image as well.\<close>

definition double_paste :: "Event list" where
  "double_paste = first_paste_submitted @ [ClipboardSettled (Inr [image_item])]"

text \<open>Then both recognitions resolve, and the reset button is clicked.\<close>

definition double_paste_then_reset :: "Event list" where
  "double_paste_then_reset =
     double_paste @
     [RecognizeSettled (Inr ''Hallo Welt''), RecognizeSettled (Inr ''Hallo Welt''), ResetClick]"

text \<open>
  The paste button is clicked; while the clipboard read is pending (the browser asks for
  permission), a file is uploaded and recognized; then the read is refused.
\<close>

definition late_denial :: "Event list" where
  "late_denial =
     [InitSettled (Inr worker0), PasteClick True, UploadClick False,
      FileChosen (Some photo_png), RecognizeSettled (Inr ''Hallo Welt''),
      ClipboardSettled (Inl (ErrorObject ''NotAllowedError''))]"

text \<open>
  The paste button is clicked; while the clipboard read is pending, a file is uploaded;
  during its recognition the read delivers a clipboard without an image.
\<close>

definition paste_without_image_during_recognition :: "Event list" where
  "paste_without_image_during_recognition =
     [InitSettled (Inr worker0), PasteClick True, UploadClick False,
      FileChosen (Some photo_png), ClipboardSettled (Inr [text_item])]"

text \<open>A paste whose clipboard read is refused at once.\<close>

definition denied_paste :: "Event list" where
  "denied_paste =
     [InitSettled (Inr worker0), PasteClick True,
      ClipboardSettled (Inl (ErrorObject ''NotAllowedError''))]"

text \<open>After the refused paste, a click on the upload button.\<close>

definition denied_upload :: "Event list" where
  "denied_upload = denied_paste @ [UploadClick False]"

text \<open>After the refused paste, a second click on the paste button.\<close>

definition retry_paste :: "Event list" where
  "retry_paste = denied_paste @ [PasteClick True]"

section \<open>Unfolding the model\<close>

lemmas handler_defs =
  initializeWorker_start_def initializeWorker_settled_def handleFileSelect_def
  triggerFileUpload_def processImage_start_def processImage_settled_def
  createObjectURL_def revokeObjectURL_def handlePaste_resume_def
  handlePaste_try_def handlePaste_catch_def handleReset_def handleCopy_def
  handlePaste_click_def copy_timeout_def updateProgress_def cleanup_def

lemmas view_defs =
  attach_refs_def acquisition_rendered_def acquisition_clickable_def
  acquisition_disabled_def isProcessing_def result_rendered_def preview_rendered_def

lemmas run_defs = run_def run_from_def step_def handle_def mounted_def initial_def

lemmas input_defs =
  photo_png_def second_png_def pasted_png_def worker0_def clip_getType_def text_item_def
  image_item_def init_done_msg_def ready_state_def recognizing_state_def stale_state_def
  stale_progress_trace_def empty_result_trace_def double_paste_def late_denial_def
  denied_paste_def denied_upload_def retry_paste_def first_paste_submitted_def
  double_paste_then_reset_def
  paste_without_image_during_recognition_def

lemmas all_defs = input_defs run_defs view_defs handler_defs

lemma handle_simps:
  "handle (InitSettled r0) s =
     (if stage s = Initializing then initializeWorker_settled r0 s else s)"
  "handle (Progress m) s = updateProgress m s"
  "handle (UploadClick cap) s =
     (if acquisition_clickable s then triggerFileUpload cap s else s)"
  "handle (FileChosen file) s =
     (if dialog_open s then handleFileSelect file (s\<lparr>dialog_open := False\<rparr>) else s)"
  "handle (PasteClick has_read) s =
     (if acquisition_clickable s then handlePaste_click has_read s else s)"
  "handle (ClipboardSettled r1) s =
     (case pending_reads s of
        [] \<Rightarrow> s
      | img # rest \<Rightarrow> handlePaste_resume img r1 (s\<lparr>pending_reads := rest\<rparr>))"
  "handle (RecognizeSettled r2) s =
     (if recognize_jobs s = [] then s else processImage_settled r2 s)"
  "handle ResetClick s = (if result_rendered s then handleReset s else s)"
  "handle (CopyClick has_clipboard) s =
     (if result_rendered s
      then (case handleCopy has_clipboard s of Inr s' \<Rightarrow> s' | Inl err \<Rightarrow> s)
      else s)"
  "handle CopyTimeout s = (if copy_timers s = 0 then s else copy_timeout s)"
  by (simp_all add: handle_def)

lemma run_from_Nil: "run_from s [] = s"
  by (simp add: run_from_def)

lemma run_from_Cons: "run_from s (e # evs) = run_from (step e s) evs"
  by (simp add: run_from_def)

lemma run_snoc: "run (evs @ [e]) = step e (run evs)"
  by (simp add: run_def run_from_def)

lemma processImage_start_None:
  "workerRef s = None \<Longrightarrow> processImage_start img f s = s"
  by (simp add: processImage_start_def)

lemma processImage_start_Some:
  "workerRef s = Some w \<Longrightarrow>
   processImage_start img f s =
     s\<lparr>error := None, text' := '''', stage := Recognizing,
       object_urls := insert (BlobUrl (urls_created s)) (object_urls s - set_option img),
       urls_created := Suc (urls_created s),
       image' := Some (BlobUrl (urls_created s)),
       recognize_jobs := recognize_jobs s @ [f]\<rparr>"
  by (cases img)
    (simp_all add: processImage_start_def createObjectURL_def revokeObjectURL_def Let_def)

lemma processImage_settled_simps:
  "processImage_settled (Inr data_text) s =
     s\<lparr>recognize_jobs := tl (recognize_jobs s), text' := data_text, stage := Done\<rparr>"
  "processImage_settled (Inl err) s =
     s\<lparr>recognize_jobs := tl (recognize_jobs s), error := Some msg_recognition_failed,
       stage := Idle\<rparr>"
  by (simp_all add: processImage_settled_def)

lemma clickable_idle:
  "acquisition_clickable s \<Longrightarrow> stage s = Idle \<and> text' s = '''' \<and> workerReady s"
  by (cases "stage s") (simp_all add: view_defs)

lemma handlePaste_try_cases:
  "handlePaste_try img r s = Inr s' \<Longrightarrow>
   s' = s\<lparr>error := Some msg_no_image\<rparr> \<or> (\<exists>f. s' = processImage_start img f s)"
  by (auto simp: handlePaste_try_def split: sum.splits option.splits)

lemma handlePaste_catch_sets_error:
  "\<exists>m. m \<noteq> '''' \<and> handlePaste_catch err s = s\<lparr>error := Some m\<rparr>"
  by (cases err) (auto simp: handlePaste_catch_def msg_clipboard_denied_def msg_paste_failed_def)

lemma handlePaste_resume_cases:
  "(\<exists>m. handlePaste_resume img r s = s\<lparr>error := Some m\<rparr>) \<or>
   (\<exists>f. handlePaste_resume img r s = processImage_start img f s)"
proof (cases "handlePaste_try img r s")
  case (Inl err)
  then show ?thesis
    using handlePaste_catch_sets_error [of err s] by (auto simp: handlePaste_resume_def)
next
  case (Inr s')
  then show ?thesis
    using handlePaste_try_cases [OF Inr] by (auto simp: handlePaste_resume_def)
qed

section \<open>Object URLs are never handed out twice\<close>

lemma urls_known_fields:
  "object_urls t = object_urls s \<Longrightarrow> image' t = image' s \<Longrightarrow>
   pending_reads t = pending_reads s \<Longrightarrow> urls_created t = urls_created s \<Longrightarrow>
   urls_known t = urls_known s"
  by (simp add: urls_known_def)

lemma urls_known_mounted: "urls_known mounted"
  by (simp add: urls_known_def mounted_def initial_def attach_refs_def
      initializeWorker_start_def)

lemma urls_known_attach_refs: "urls_known (attach_refs s) = urls_known s"
  by (rule urls_known_fields) (simp_all add: attach_refs_def)

lemma urls_known_set_error: "urls_known (s\<lparr>error := e\<rparr>) = urls_known s"
  by (rule urls_known_fields) simp_all

lemma urls_known_processImage:
  "urls_known s \<Longrightarrow> urls_known (processImage_start img f s)"
proof (cases "workerRef s")
  case None
  assume "urls_known s"
  then show ?thesis using None by (simp add: processImage_start_None)
next
  case (Some w)
  assume "urls_known s"
  then show ?thesis
    unfolding processImage_start_Some [OF Some] urls_known_def
    by (auto simp: less_Suc_eq)
qed

lemma urls_known_handlePaste_resume:
  "urls_known s \<Longrightarrow> urls_known (handlePaste_resume img r s)"
  using handlePaste_resume_cases [of img r s] urls_known_processImage [of s img]
  by (auto simp: urls_known_set_error)

lemma urls_known_handle: "urls_known s \<Longrightarrow> urls_known (handle e s)"
proof (cases e)
  case (InitSettled r)
  have "urls_known (initializeWorker_settled r s) = urls_known s"
    by (rule urls_known_fields; cases r) (simp_all add: initializeWorker_settled_def)
  moreover assume "urls_known s"
  ultimately show ?thesis using InitSettled by (simp add: handle_simps)
next
  case (Progress m)
  have "urls_known (updateProgress m s) = urls_known s"
    by (rule urls_known_fields) (simp_all add: updateProgress_def)
  moreover assume "urls_known s"
  ultimately show ?thesis using Progress by (simp add: handle_simps)
next
  case (UploadClick cap)
  have "urls_known (triggerFileUpload cap s) = urls_known s"
    by (rule urls_known_fields) (simp_all add: triggerFileUpload_def split: option.splits)
  moreover assume "urls_known s"
  ultimately show ?thesis using UploadClick by (simp add: handle_simps)
next
  case (FileChosen chosen)
  have "urls_known (s\<lparr>dialog_open := False\<rparr>) = urls_known s"
    by (rule urls_known_fields) simp_all
  moreover assume "urls_known s"
  ultimately show ?thesis
    using FileChosen urls_known_processImage [of "s\<lparr>dialog_open := False\<rparr>"]
    by (cases chosen) (simp_all add: handle_simps handleFileSelect_def)
next
  case (PasteClick has_read)
  assume a: "urls_known s"
  then have "urls_known (s\<lparr>pending_reads := pending_reads s @ [image' s]\<rparr>)"
    by (auto simp: urls_known_def)
  then show ?thesis using PasteClick a
    by (simp add: handle_simps handlePaste_click_def urls_known_set_error)
next
  case (ClipboardSettled r)
  assume a: "urls_known s"
  show ?thesis
  proof (cases "pending_reads s")
    case Nil
    then show ?thesis using ClipboardSettled a by (simp add: handle_simps)
  next
    case (Cons img rest)
    then have "urls_known (s\<lparr>pending_reads := rest\<rparr>)"
      using a by (auto simp: urls_known_def)
    then show ?thesis using ClipboardSettled Cons urls_known_handlePaste_resume
      by (simp add: handle_simps)
  qed
next
  case (RecognizeSettled r)
  have "urls_known (processImage_settled r s) = urls_known s"
    by (rule urls_known_fields; cases r) (simp_all add: processImage_settled_simps)
  moreover assume "urls_known s"
  ultimately show ?thesis using RecognizeSettled by (simp add: handle_simps)
next
  case ResetClick
  assume "urls_known s"
  then have "urls_known (handleReset s)"
    by (cases "image' s")
      (auto simp: urls_known_def handleReset_def revokeObjectURL_def Let_def)
  moreover assume "urls_known s"
  ultimately show ?thesis using ResetClick by (simp add: handle_simps)
next
  case (CopyClick has_clipboard)
  have "urls_known (s\<lparr>clipboard_written := w, copyButtonText := c, copy_timers := n\<rparr>)
          = urls_known s" for w c n
    by (rule urls_known_fields) simp_all
  moreover assume "urls_known s"
  ultimately show ?thesis using CopyClick by (simp add: handle_simps handleCopy_def)
next
  case CopyTimeout
  have "urls_known (copy_timeout s) = urls_known s"
    by (rule urls_known_fields) (simp_all add: copy_timeout_def)
  moreover assume "urls_known s"
  ultimately show ?thesis using CopyTimeout by (simp add: handle_simps)
qed

lemma urls_known_run_from: "urls_known s \<Longrightarrow> urls_known (run_from s evs)"
  by (induction evs arbitrary: s)
    (simp_all add: run_from_Nil run_from_Cons step_def urls_known_handle urls_known_attach_refs)

lemma urls_known_run: "urls_known (run evs)"
  by (simp add: run_def urls_known_run_from urls_known_mounted)

section \<open>The engine handle in runs\<close>

lemma worker_held_fields:
  "workerReady t = workerReady s \<Longrightarrow> pending_reads t = pending_reads s \<Longrightarrow>
   dialog_open t = dialog_open s \<Longrightarrow> workerRef t = workerRef s \<Longrightarrow>
   worker_held t = worker_held s"
  by (simp add: worker_held_def)

lemma processImage_start_frame:
  "workerReady (processImage_start img f s) = workerReady s"
  "pending_reads (processImage_start img f s) = pending_reads s"
  "dialog_open (processImage_start img f s) = dialog_open s"
  "workerRef (processImage_start img f s) = workerRef s"
  "inputRef (processImage_start img f s) = inputRef s"
  by (cases "workerRef s"; simp add: processImage_start_None processImage_start_Some)+

lemma handlePaste_resume_frame:
  "workerReady (handlePaste_resume img r s) = workerReady s"
  "pending_reads (handlePaste_resume img r s) = pending_reads s"
  "dialog_open (handlePaste_resume img r s) = dialog_open s"
  "workerRef (handlePaste_resume img r s) = workerRef s"
  using handlePaste_resume_cases [of img r s]
  by (auto simp: processImage_start_frame)

lemma worker_held_handle: "worker_held s \<Longrightarrow> worker_held (handle e s)"
proof (cases e)
  case (InitSettled r)
  assume "worker_held s"
  then show ?thesis using InitSettled
    by (cases r) (simp_all add: handle_simps initializeWorker_settled_def worker_held_def)
next
  case (Progress m)
  have "worker_held (updateProgress m s) = worker_held s"
    by (rule worker_held_fields) (simp_all add: updateProgress_def)
  moreover assume "worker_held s"
  ultimately show ?thesis using Progress by (simp add: handle_simps)
next
  case (UploadClick cap)
  assume a: "worker_held s"
  have "acquisition_clickable s \<Longrightarrow> worker_held (triggerFileUpload cap s)"
    using a clickable_idle [of s]
    by (simp add: worker_held_def triggerFileUpload_def split: option.splits)
  then show ?thesis using UploadClick a by (simp add: handle_simps)
next
  case (FileChosen chosen)
  assume a: "worker_held s"
  have "dialog_open s \<Longrightarrow> worker_held (handleFileSelect chosen (s\<lparr>dialog_open := False\<rparr>))"
    using a
    by (cases chosen)
      (simp_all add: worker_held_def handleFileSelect_def processImage_start_frame)
  then show ?thesis using FileChosen a by (simp add: handle_simps)
next
  case (PasteClick has_read)
  assume a: "worker_held s"
  have "acquisition_clickable s \<Longrightarrow> worker_held (handlePaste_click has_read s)"
    using a clickable_idle [of s] by (simp add: worker_held_def handlePaste_click_def)
  then show ?thesis using PasteClick a by (simp add: handle_simps)
next
  case (ClipboardSettled r)
  assume a: "worker_held s"
  show ?thesis
  proof (cases "pending_reads s")
    case Nil
    then show ?thesis using ClipboardSettled a by (simp add: handle_simps)
  next
    case (Cons img rest)
    then have "workerRef s \<noteq> None" using a by (simp add: worker_held_def)
    then show ?thesis using ClipboardSettled Cons
      by (simp add: handle_simps worker_held_def handlePaste_resume_frame)
  qed
next
  case (RecognizeSettled r)
  have "worker_held (processImage_settled r s) = worker_held s"
    by (rule worker_held_fields; cases r) (simp_all add: processImage_settled_simps)
  moreover assume "worker_held s"
  ultimately show ?thesis using RecognizeSettled by (simp add: handle_simps)
next
  case ResetClick
  have "worker_held (handleReset s) = worker_held s"
    by (rule worker_held_fields; cases "image' s")
      (simp_all add: handleReset_def revokeObjectURL_def)
  moreover assume "worker_held s"
  ultimately show ?thesis using ResetClick by (simp add: handle_simps)
next
  case (CopyClick has_clipboard)
  have "worker_held (s\<lparr>clipboard_written := w, copyButtonText := c, copy_timers := n\<rparr>)
          = worker_held s" for w c n
    by (rule worker_held_fields) simp_all
  moreover assume "worker_held s"
  ultimately show ?thesis using CopyClick by (simp add: handle_simps handleCopy_def)
next
  case CopyTimeout
  have "worker_held (copy_timeout s) = worker_held s"
    by (rule worker_held_fields) (simp_all add: copy_timeout_def)
  moreover assume "worker_held s"
  ultimately show ?thesis using CopyTimeout by (simp add: handle_simps)
qed

lemma worker_held_attach_refs: "worker_held s \<Longrightarrow> worker_held (attach_refs s)"
  by (simp add: worker_held_def attach_refs_def)

lemma worker_held_run_from: "worker_held s \<Longrightarrow> worker_held (run_from s evs)"
  by (induction evs arbitrary: s)
    (simp_all add: run_from_Nil run_from_Cons step_def worker_held_handle
      worker_held_attach_refs)

lemma worker_held_mounted: "worker_held mounted"
  by (simp add: worker_held_def mounted_def initial_def attach_refs_def
      initializeWorker_start_def)

lemma worker_held_run: "worker_held (run evs)"
  unfolding run_def by (rule worker_held_run_from) (rule worker_held_mounted)

lemma input_mounted_attach_refs: "input_mounted (attach_refs s)"
  by (simp add: input_mounted_def attach_refs_def acquisition_rendered_def
      split: option.splits)

lemma input_mounted_run_from: "input_mounted s \<Longrightarrow> input_mounted (run_from s evs)"
  by (induction evs arbitrary: s)
    (simp_all add: run_from_Nil run_from_Cons step_def input_mounted_attach_refs)

lemma input_mounted_run: "input_mounted (run evs)"
  unfolding run_def mounted_def
  by (rule input_mounted_run_from) (rule input_mounted_attach_refs)

lemma attach_refs_frame:
  "error (attach_refs s) = error s" "text' (attach_refs s) = text' s"
  "stage (attach_refs s) = stage s" "image' (attach_refs s) = image' s"
  "object_urls (attach_refs s) = object_urls s"
  "recognize_jobs (attach_refs s) = recognize_jobs s"
  "pending_reads (attach_refs s) = pending_reads s"
  "workerRef (attach_refs s) = workerRef s"
  by (simp_all add: attach_refs_def)

text \<open>A submission through the view, in any run.\<close>

lemma file_chosen_clears:
  assumes "dialog_open (run evs)"
  shows "error (step (FileChosen (Some f)) (run evs)) = None \<and>
         text' (step (FileChosen (Some f)) (run evs)) = '''' \<and>
         stage (step (FileChosen (Some f)) (run evs)) = Recognizing"
proof -
  let ?s = "run evs"
  have "workerRef ?s \<noteq> None"
    using assms worker_held_run [of evs] by (simp add: worker_held_def)
  then obtain w where w: "workerRef (?s\<lparr>dialog_open := False\<rparr>) = Some w"
    by auto
  show ?thesis using assms
    by (simp add: step_def handle_simps handleFileSelect_def attach_refs_frame
        processImage_start_Some [OF w])
qed

lemma upload_click_opens_dialog:
  assumes "acquisition_clickable (run evs)"
  shows "dialog_open (step (UploadClick cap) (run evs))"
proof -
  let ?s = "run evs"
  obtain el where el: "inputRef ?s = Some el"
    using assms input_mounted_run [of evs]
    by (auto simp: input_mounted_def acquisition_clickable_def)
  have "acquisition_rendered ?s"
    using assms by (simp add: acquisition_clickable_def)
  then show ?thesis using assms el
    by (simp add: step_def handle_simps triggerFileUpload_def attach_refs_def
        acquisition_rendered_def)
qed

lemma upload_clears:
  assumes "acquisition_clickable (run evs)"
  shows "error (step (FileChosen (Some f)) (step (UploadClick cap) (run evs))) = None \<and>
         text' (step (FileChosen (Some f)) (step (UploadClick cap) (run evs))) = '''' \<and>
         stage (step (FileChosen (Some f)) (step (UploadClick cap) (run evs))) = Recognizing"
  using upload_click_opens_dialog [OF assms, of cap]
    file_chosen_clears [of "evs @ [UploadClick cap]" f]
  by (simp add: run_snoc)

lemma paste_clears:
  assumes "pending_reads (run evs) \<noteq> []" "scan_clipboardItems items = Inr (Some f)"
  shows "error (step (ClipboardSettled (Inr items)) (run evs)) = None \<and>
         text' (step (ClipboardSettled (Inr items)) (run evs)) = '''' \<and>
         stage (step (ClipboardSettled (Inr items)) (run evs)) = Recognizing"
proof -
  let ?s = "run evs"
  from assms(1) obtain img rest where p: "pending_reads ?s = img # rest"
    by (cases "pending_reads ?s") auto
  have "workerRef ?s \<noteq> None"
    using assms(1) worker_held_run [of evs] by (simp add: worker_held_def)
  then obtain w where w: "workerRef (?s\<lparr>pending_reads := rest\<rparr>) = Some w"
    by auto
  show ?thesis using p assms(2)
    by (simp add: step_def handle_simps attach_refs_frame handlePaste_resume_def
        handlePaste_try_def processImage_start_Some [OF w])
qed

section \<open>Runs in which nothing interleaves with an acquisition\<close>

lemma app_inv_fields:
  "pending_reads t = pending_reads s \<Longrightarrow> dialog_open t = dialog_open s \<Longrightarrow>
   object_urls t = object_urls s \<Longrightarrow> image' t = image' s \<Longrightarrow> stage t = stage s \<Longrightarrow>
   text' t = text' s \<Longrightarrow> error t = error s \<Longrightarrow> recognize_jobs t = recognize_jobs s \<Longrightarrow>
   app_inv t = app_inv s"
  by (simp add: app_inv_def stage_inv_def split: Stage.splits)

lemma app_inv_mounted: "app_inv mounted"
  by (simp add: app_inv_def stage_inv_def mounted_def initial_def view_defs
      initializeWorker_start_def)

lemma app_inv_attach_refs: "app_inv s \<Longrightarrow> app_inv (attach_refs s)"
proof (cases "acquisition_rendered s")
  case True
  then have "app_inv (attach_refs s) = app_inv s"
    by (intro app_inv_fields) (simp_all add: attach_refs_def)
  moreover assume "app_inv s"
  ultimately show ?thesis by simp
next
  case False
  assume a: "app_inv s"
  then have "dialog_open s = False" by (simp add: app_inv_def)
  with False have "app_inv (attach_refs s) = app_inv s"
    by (intro app_inv_fields) (simp_all add: attach_refs_def)
  with a show ?thesis by simp
qed

lemma app_inv_set_error:
  "app_inv s \<Longrightarrow> stage s = Idle \<Longrightarrow> app_inv (s\<lparr>error := e\<rparr>)"
  by (simp add: app_inv_def stage_inv_def)

lemma app_inv_processImage:
  "app_inv s \<Longrightarrow> stage s = Idle \<Longrightarrow> app_inv (processImage_start (image' s) f s)"
  by (cases "workerRef s")
    (simp_all add: app_inv_def stage_inv_def processImage_start_None processImage_start_Some)

lemma inv_init: "app_inv s \<Longrightarrow> app_inv (handle (InitSettled r) s)"
  by (cases r; cases "stage s")
    (simp_all add: handle_simps initializeWorker_settled_def app_inv_def stage_inv_def)

lemma inv_progress: "app_inv s \<Longrightarrow> app_inv (handle (Progress m) s)"
proof -
  have "app_inv (updateProgress m s) = app_inv s"
    by (rule app_inv_fields) (simp_all add: updateProgress_def)
  then show "app_inv s \<Longrightarrow> app_inv (handle (Progress m) s)"
    by (simp add: handle_simps)
qed

lemma inv_stray_file: "app_inv s \<Longrightarrow> app_inv (handle (FileChosen chosen) s)"
  by (simp add: handle_simps app_inv_def)

lemma inv_paste_unsupported: "app_inv s \<Longrightarrow> app_inv (handle (PasteClick False) s)"
proof (cases "acquisition_clickable s")
  case True
  assume "app_inv s"
  then show ?thesis using True clickable_idle [of s]
    by (simp add: handle_simps handlePaste_click_def app_inv_set_error)
next
  case False
  assume "app_inv s"
  then show ?thesis using False by (simp add: handle_simps)
qed

lemma inv_stray_settle: "app_inv s \<Longrightarrow> app_inv (handle (ClipboardSettled r) s)"
  by (simp add: handle_simps app_inv_def)

lemma inv_recognize: "app_inv s \<Longrightarrow> app_inv (handle (RecognizeSettled r) s)"
  by (cases r; cases "stage s"; cases "recognize_jobs s")
    (simp_all add: handle_simps processImage_settled_simps app_inv_def stage_inv_def)

lemma inv_reset: "app_inv s \<Longrightarrow> app_inv (handle ResetClick s)"
  by (cases "image' s"; cases "stage s")
    (simp_all add: handle_simps handleReset_def revokeObjectURL_def app_inv_def stage_inv_def
      result_rendered_def Let_def)

lemma inv_copy: "app_inv s \<Longrightarrow> app_inv (handle (CopyClick b) s)"
proof -
  have "app_inv (s\<lparr>clipboard_written := w, copyButtonText := c, copy_timers := n\<rparr>)
          = app_inv s" for w c n
    by (rule app_inv_fields) simp_all
  then show "app_inv s \<Longrightarrow> app_inv (handle (CopyClick b) s)"
    by (simp add: handle_simps handleCopy_def)
qed

lemma inv_timeout: "app_inv s \<Longrightarrow> app_inv (handle CopyTimeout s)"
proof -
  have "app_inv (copy_timeout s) = app_inv s"
    by (rule app_inv_fields) (simp_all add: copy_timeout_def)
  then show "app_inv s \<Longrightarrow> app_inv (handle CopyTimeout s)"
    by (simp add: handle_simps)
qed

lemma app_inv_step:
  "app_inv s \<Longrightarrow> e \<noteq> PasteClick True \<Longrightarrow> \<forall>cap. e \<noteq> UploadClick cap \<Longrightarrow>
   app_inv (step e s)"
  using inv_init inv_progress inv_stray_file inv_paste_unsupported inv_stray_settle
    inv_recognize inv_reset inv_copy inv_timeout
  by (cases e) (auto simp: step_def app_inv_attach_refs)

lemma app_inv_handlePaste_resume:
  assumes "app_inv s" "stage s = Idle"
  shows "app_inv (handlePaste_resume (image' s) r s)"
  using handlePaste_resume_cases [of "image' s" r s] app_inv_processImage [OF assms]
    app_inv_set_error [OF assms]
  by auto

text \<open>A paste click and the settling of its clipboard read, with nothing in between.\<close>

lemma app_inv_paste:
  assumes "app_inv s"
  shows "app_inv (step (ClipboardSettled r) (step (PasteClick True) s))"
proof (cases "acquisition_clickable s")
  case True
  let ?s1 = "attach_refs s"
  have p: "pending_reads s = []" using assms by (simp add: app_inv_def)
  have s1: "app_inv ?s1" "stage ?s1 = Idle" "image' ?s1 = image' s"
    using assms True clickable_idle [of s]
    by (simp_all add: app_inv_attach_refs attach_refs_frame)
  have r: "acquisition_rendered s"
    using True by (simp add: acquisition_clickable_def)
  have "step (PasteClick True) s = ?s1\<lparr>pending_reads := [image' s]\<rparr>"
    using True p r
    by (simp add: step_def handle_simps handlePaste_click_def attach_refs_def
        acquisition_rendered_def)
  moreover have "?s1\<lparr>pending_reads := [image' s], pending_reads := []\<rparr> = ?s1"
    using p by (simp add: attach_refs_def)
  ultimately have "step (ClipboardSettled r) (step (PasteClick True) s) =
      attach_refs (handlePaste_resume (image' ?s1) r ?s1)"
    using s1(3) by (simp add: step_def handle_simps)
  then show ?thesis
    using app_inv_handlePaste_resume [OF s1(1,2)] by (simp add: app_inv_attach_refs)
next
  case False
  then have "step (PasteClick True) s = attach_refs s"
    by (simp add: step_def handle_simps)
  moreover have "pending_reads (attach_refs s) = []"
    using assms by (simp add: app_inv_def attach_refs_frame)
  ultimately show ?thesis using assms
    by (simp add: step_def handle_simps app_inv_attach_refs)
qed

text \<open>A click on a file button and the outcome of its dialog, with nothing in between.\<close>

lemma app_inv_upload:
  assumes "app_inv s"
  shows "app_inv (step (FileChosen chosen) (step (UploadClick cap) s))"
proof -
  let ?s1 = "step (UploadClick cap) s"
  let ?u = "?s1\<lparr>dialog_open := False\<rparr>"
  have d: "dialog_open s = False" using assms by (simp add: app_inv_def)
  have "app_inv ?u = app_inv s"
    using d
    by (intro app_inv_fields)
      (simp_all add: step_def handle_simps triggerFileUpload_def attach_refs_def
        split: option.splits)
  then have u: "app_inv ?u" using assms by simp
  show ?thesis
  proof (cases "dialog_open ?s1")
    case True
    then have "acquisition_clickable s"
      using d
      by (simp add: step_def handle_simps attach_refs_def split: if_splits)
    then have "stage s = Idle" using clickable_idle [of s] by simp
    then have "stage ?u = Idle"
      by (simp add: step_def handle_simps triggerFileUpload_def attach_refs_def
          split: option.splits)
    then have "app_inv (processImage_start (image' ?u) f ?u)" for f
      using u app_inv_processImage [of ?u f] by simp
    then have "app_inv (handleFileSelect chosen ?u)"
      using u by (cases chosen) (simp_all add: handleFileSelect_def)
    then show ?thesis using True
      by (simp add: step_def [of "FileChosen chosen"] handle_simps app_inv_attach_refs)
  next
    case False
    then have "app_inv ?s1 = app_inv ?u"
      by (intro app_inv_fields) simp_all
    then show ?thesis using False u
      by (simp add: step_def [of "FileChosen chosen"] handle_simps app_inv_attach_refs)
  qed
qed

lemma app_inv_run_from:
  "app_inv s \<Longrightarrow> acquisitions_atomic evs \<Longrightarrow> app_inv (run_from s evs)"
proof (induction evs arbitrary: s rule: acquisitions_atomic.induct)
  case 1
  then show ?case by (simp add: run_from_Nil)
next
  case (2 r evs)
  then show ?case using app_inv_paste [of s r] by (simp add: run_from_Cons)
next
  case (4 cap chosen evs)
  then show ?case using app_inv_upload [of s chosen cap] by (simp add: run_from_Cons)
qed (simp_all add: run_from_Cons app_inv_step)

lemma app_inv_run: "acquisitions_atomic evs \<Longrightarrow> app_inv (run evs)"
  by (simp add: run_def app_inv_run_from app_inv_mounted)

text \<open>
  In such runs at most one recognition is in flight, and only in stage \<open>Recognizing\<close>; the
  live object URLs are exactly the preview handle; a result is shown only in stage \<open>Done\<close>;
  an error message is shown only in stage \<open>Idle\<close>, without a result.
\<close>

lemma one_recognition_when_acquisitions_atomic:
  "acquisitions_atomic evs \<Longrightarrow>
   length (recognize_jobs (run evs)) \<le> 1 \<and>
   (recognize_jobs (run evs) \<noteq> [] \<longrightarrow> stage (run evs) = Recognizing)"
  using app_inv_run [of evs]
  by (cases "stage (run evs)") (simp_all add: app_inv_def stage_inv_def)

lemma one_handle_when_acquisitions_atomic:
  "acquisitions_atomic evs \<Longrightarrow> object_urls (run evs) = set_option (image' (run evs))"
  using app_inv_run [of evs] by (simp add: app_inv_def)

lemma result_only_when_done_when_acquisitions_atomic:
  "acquisitions_atomic evs \<Longrightarrow> text' (run evs) \<noteq> '''' \<Longrightarrow> stage (run evs) = Done"
  using app_inv_run [of evs]
  by (cases "stage (run evs)") (simp_all add: app_inv_def stage_inv_def)

lemma error_only_when_idle_when_acquisitions_atomic:
  "acquisitions_atomic evs \<Longrightarrow> error (run evs) \<noteq> None \<Longrightarrow>
   stage (run evs) = Idle \<and> text' (run evs) = ''''"
  using app_inv_run [of evs]
  by (cases "stage (run evs)") (simp_all add: app_inv_def stage_inv_def)

lemma reset_leaves_no_url_when_acquisitions_atomic:
  "acquisitions_atomic evs \<Longrightarrow> object_urls (handleReset (run evs)) = {}"
  using one_handle_when_acquisitions_atomic [of evs]
  by (cases "image' (run evs)") (simp_all add: handleReset_def revokeObjectURL_def Let_def)

section \<open>processImage and the stage\<close>

text \<open>
  What \<^verbatim>\<open>processImage\<close> does up to its \<^verbatim>\<open>await\<close>. It is a no-op when no engine handle
  is held. Otherwise it sets the stage to \<open>Recognizing\<close>, creates an object URL that the
  state did not know before, makes it the preview handle and issues one \<^verbatim>\<open>recognize\<close>
  call. It never looks at the stage: only the view does, where an acquisition button can be
  clicked only when the engine is ready and the stage is \<open>Idle\<close>.
\<close>

lemma processImage_start_effect:
  "(workerRef s = None \<longrightarrow> processImage_start img f s = s) \<and>
   (workerRef s \<noteq> None \<longrightarrow>
      stage (processImage_start img f s) = Recognizing \<and>
      image' (processImage_start img f s) = Some (BlobUrl (urls_created s)) \<and>
      BlobUrl (urls_created s) \<in> object_urls (processImage_start img f s) \<and>
      urls_created (processImage_start img f s) = Suc (urls_created s) \<and>
      recognize_jobs (processImage_start img f s) = recognize_jobs s @ [f]) \<and>
   (urls_known s \<longrightarrow>
      BlobUrl (urls_created s) \<notin> object_urls s \<and>
      image' s \<noteq> Some (BlobUrl (urls_created s))) \<and>
   (acquisition_clickable s \<longrightarrow> workerReady s \<and> stage s = Idle)"
proof -
  have a: "workerRef s = None \<longrightarrow> processImage_start img f s = s"
    by (simp add: processImage_start_None)
  have b: "workerRef s \<noteq> None \<longrightarrow>
      stage (processImage_start img f s) = Recognizing \<and>
      image' (processImage_start img f s) = Some (BlobUrl (urls_created s)) \<and>
      BlobUrl (urls_created s) \<in> object_urls (processImage_start img f s) \<and>
      urls_created (processImage_start img f s) = Suc (urls_created s) \<and>
      recognize_jobs (processImage_start img f s) = recognize_jobs s @ [f]"
    by (auto simp: processImage_start_Some)
  have c: "urls_known s \<longrightarrow>
      BlobUrl (urls_created s) \<notin> object_urls s \<and>
      image' s \<noteq> Some (BlobUrl (urls_created s))"
  proof
    assume k: "urls_known s"
    have "url_index u < urls_created s" if "u \<in> object_urls s \<or> image' s = Some u" for u
      using k that unfolding urls_known_def by auto
    from this [of "BlobUrl (urls_created s)"]
    show "BlobUrl (urls_created s) \<notin> object_urls s \<and>
      image' s \<noteq> Some (BlobUrl (urls_created s))"
      by auto
  qed
  have d: "acquisition_clickable s \<longrightarrow> workerReady s \<and> stage s = Idle"
    using clickable_idle [of s] by simp
  from a b c d show ?thesis by simp
qed

text \<open>
  Claim C1 fails on the code. The view disables the acquisition buttons while the stage is
  \<open>Initializing\<close> or \<open>Recognizing\<close>, but not while a clipboard read is pending, and
  \<^verbatim>\<open>processImage\<close> itself does not test the stage. After two clicks on the paste button,
  both before the first read settles, the first read starts a recognition; the second read
  then calls \<^verbatim>\<open>processImage\<close> in stage \<open>Recognizing\<close>, which is no no-op: the state
  changes and two \<^verbatim>\<open>recognize\<close> calls are in flight.
\<close>

theorem two_recognitions_in_flight_after_double_paste:
  "stage (run first_paste_submitted) = Recognizing \<and>
   recognize_jobs (run first_paste_submitted) = [pasted_png] \<and>
   pending_reads (run first_paste_submitted) = [None] \<and>
   run double_paste \<noteq> run first_paste_submitted \<and>
   stage (run double_paste) = Recognizing \<and>
   recognize_jobs (run double_paste) = [pasted_png, pasted_png]"
  by (simp add: all_defs Let_def)

section \<open>ProgressState\<close>

text \<open>
  Claim C2, as the code has it. \<^verbatim>\<open>handleReset\<close> sets ProgressState to the empty status
  and zero. The start of a recognition attempt does not touch it: it keeps the value that
  the last progress event of the engine gave it.
\<close>

theorem progress_reset_only_by_handleReset:
  "progress (handleReset s) = \<lparr>status = '''', fraction = 0\<rparr> \<and>
   progress (processImage_start img f s) = progress s"
  by (cases "workerRef s"; cases "image' s")
    (simp_all add: handleReset_def revokeObjectURL_def processImage_start_None
      processImage_start_Some)

text \<open>
  The claim as stated fails: the engine's last message of the initialization is still the
  ProgressState when the first recognition attempt has started.
\<close>

theorem progress_not_reset_counterexample:
  "stage (run stale_progress_trace) = Recognizing \<and>
   recognize_jobs (run stale_progress_trace) = [photo_png] \<and>
   progress (run stale_progress_trace) = \<lparr>status = ''initialized api'', fraction = 1\<rparr> \<and>
   progress (run stale_progress_trace) \<noteq> \<lparr>status = '''', fraction = 0\<rparr>"
  by (simp add: all_defs Let_def)

section \<open>Unmount\<close>

text \<open>
  Claim C3, as the code has it. On unmount the engine handle held in \<^verbatim>\<open>workerRef\<close>, if
  any, is terminated and the ref is cleared. The preview handle is not released: the state
  variable and the live object URLs are left as they are.
\<close>

theorem cleanup_effect:
  "workerRef (cleanup s) = None \<and>
   terminated (cleanup s) =
     terminated s @ (case workerRef s of Some w \<Rightarrow> [w] | None \<Rightarrow> []) \<and>
   image' (cleanup s) = image' s \<and>
   object_urls (cleanup s) = object_urls s"
  by (cases "workerRef s") (simp_all add: cleanup_def)

text \<open>
  The claim as stated fails: unmounting while an image is shown terminates the worker and
  leaves the image's object URL alive.
\<close>

theorem cleanup_keeps_image_counterexample:
  "image' recognizing_state = Some (BlobUrl 0) \<and>
   terminated (cleanup recognizing_state) = [worker0] \<and>
   image' (cleanup recognizing_state) = Some (BlobUrl 0) \<and>
   BlobUrl 0 \<in> object_urls (cleanup recognizing_state)"
  by (simp add: all_defs Let_def)

section \<open>A submission clears the previous outcome\<close>

text \<open>
  Claim C4. Every call of \<^verbatim>\<open>processImage\<close> made while the engine handle is held clears
  ErrorMessage and RecognizedText and enters stage \<open>Recognizing\<close> before \<^verbatim>\<open>recognize\<close>
  settles, with any \<^verbatim>\<open>image\<close> in its closure; the file input and the paste of an image
  both submit through it. In every run of the component this covers every submission:
  a file chosen after a click on an enabled button, a file chosen in an open dialog
  whatever has happened since the click, and a pending clipboard read that delivers an
  image.
\<close>

theorem submission_clears_error_and_text:
  "(workerRef s \<noteq> None \<longrightarrow>
      error (processImage_start img f s) = None \<and>
      text' (processImage_start img f s) = '''' \<and>
      stage (processImage_start img f s) = Recognizing \<and>
      handleFileSelect (Some f) s = processImage_start (image' s) f s \<and>
      (scan_clipboardItems items = Inr (Some f) \<longrightarrow>
         handlePaste_resume img (Inr items) s = processImage_start img f s)) \<and>
   (acquisition_clickable (run evs) \<longrightarrow>
      error (step (FileChosen (Some f)) (step (UploadClick cap) (run evs))) = None \<and>
      text' (step (FileChosen (Some f)) (step (UploadClick cap) (run evs))) = '''' \<and>
      stage (step (FileChosen (Some f)) (step (UploadClick cap) (run evs))) = Recognizing) \<and>
   (dialog_open (run evs) \<longrightarrow>
      error (step (FileChosen (Some f)) (run evs)) = None \<and>
      text' (step (FileChosen (Some f)) (run evs)) = '''' \<and>
      stage (step (FileChosen (Some f)) (run evs)) = Recognizing) \<and>
   (pending_reads (run evs) \<noteq> [] \<and> scan_clipboardItems items = Inr (Some f) \<longrightarrow>
      error (step (ClipboardSettled (Inr items)) (run evs)) = None \<and>
      text' (step (ClipboardSettled (Inr items)) (run evs)) = '''' \<and>
      stage (step (ClipboardSettled (Inr items)) (run evs)) = Recognizing)"
proof -
  have a: "workerRef s \<noteq> None \<longrightarrow>
      error (processImage_start img f s) = None \<and>
      text' (processImage_start img f s) = '''' \<and>
      stage (processImage_start img f s) = Recognizing \<and>
      handleFileSelect (Some f) s = processImage_start (image' s) f s \<and>
      (scan_clipboardItems items = Inr (Some f) \<longrightarrow>
         handlePaste_resume img (Inr items) s = processImage_start img f s)"
    by (auto simp: processImage_start_Some handleFileSelect_def handlePaste_resume_def
        handlePaste_try_def)
  from a upload_clears [of evs f cap] file_chosen_clears [of evs f]
    paste_clears [of evs items f]
  show ?thesis by blast
qed

theorem submission_clears_error_and_text_witness:
  "workerRef stale_state \<noteq> None \<and>
   error stale_state = Some msg_paste_failed \<and>
   text' stale_state = ''Hallo Welt'' \<and>
   scan_clipboardItems [text_item, image_item] = Inr (Some pasted_png) \<and>
   error (handleFileSelect (Some pasted_png) stale_state) = None \<and>
   text' (handleFileSelect (Some pasted_png) stale_state) = '''' \<and>
   error (handlePaste_resume (image' stale_state) (Inr [text_item, image_item]) stale_state)
     = None \<and>
   text' (handlePaste_resume (image' stale_state) (Inr [text_item, image_item]) stale_state)
     = '''' \<and>
   acquisition_clickable (run denied_paste) \<and>
   error (run denied_paste) = Some msg_clipboard_denied \<and>
   error (step (FileChosen (Some pasted_png)) (step (UploadClick False) (run denied_paste)))
     = None \<and>
   dialog_open (run denied_upload) \<and>
   error (run denied_upload) = Some msg_clipboard_denied \<and>
   error (step (FileChosen (Some pasted_png)) (run denied_upload)) = None \<and>
   pending_reads (run retry_paste) \<noteq> [] \<and>
   error (run retry_paste) = Some msg_clipboard_denied \<and>
   error (step (ClipboardSettled (Inr [text_item, image_item])) (run retry_paste)) = None"
  using submission_clears_error_and_text
      [of stale_state "image' stale_state" pasted_png "[text_item, image_item]"
        denied_paste False]
    submission_clears_error_and_text
      [of stale_state "image' stale_state" pasted_png "[text_item, image_item]"
        denied_upload False]
    submission_clears_error_and_text
      [of stale_state "image' stale_state" pasted_png "[text_item, image_item]"
        retry_paste False]
  by (simp add: all_defs)

section \<open>One preview handle\<close>

text \<open>
  Claim C5 fails on the code. \<^verbatim>\<open>processImage\<close> revokes the \<^verbatim>\<open>image\<close> of its closure,
  and \<^verbatim>\<open>handlePaste\<close> calls it after awaiting the clipboard, so that value is the one of
  the render in which the paste button was clicked. After two clicks on the paste button,
  both before the first read settles, the second \<^verbatim>\<open>processImage\<close> still sees no image:
  it revokes nothing and creates a second object URL. Both URLs are alive, the first one
  for good (only the second is the preview handle).
\<close>

theorem two_handles_alive_after_double_paste:
  "image' (run double_paste) = Some (BlobUrl 1) \<and>
   BlobUrl 0 \<in> object_urls (run double_paste) \<and>
   BlobUrl 1 \<in> object_urls (run double_paste)"
  by (simp add: all_defs Let_def)

section \<open>The error message and the stage\<close>

text \<open>
  Claim C6 fails on the code. The acquisition buttons stay enabled while a clipboard read
  is pending. A file uploaded in the meantime is recognized; when the read is then refused,
  \<^verbatim>\<open>handlePaste\<close> sets ErrorMessage, and does nothing else: the stage is \<open>Done\<close> and the
  recognized text is shown.
\<close>

theorem error_shown_with_result_after_late_denial:
  "error (run late_denial) = Some msg_clipboard_denied \<and>
   stage (run late_denial) = Done \<and>
   text' (run late_denial) = ''Hallo Welt''"
  by (simp add: all_defs Let_def)

section \<open>The clipboard adapter\<close>

lemma find_image_type_None:
  "find (prefix ''image/'') ts = None \<longleftrightarrow> \<not> (\<exists>t \<in> set ts. prefix ''image/'' t)"
  by (auto simp: find_None_iff)

lemma scan_first_None:
  "first_image_item items = None \<Longrightarrow> scan_clipboardItems items = Inr None"
  unfolding first_image_item_def
proof (induction items)
  case Nil
  then show ?case by simp
next
  case (Cons a items)
  from Cons.prems have no: "\<not> (\<exists>t \<in> set (types a). prefix ''image/'' t)"
    and rest: "find (\<lambda>item. \<exists>t \<in> set (types item). prefix ''image/'' t) items = None"
    by (simp_all split: if_splits)
  from no have "find (prefix ''image/'') (types a) = None"
    by (simp add: find_image_type_None)
  then show ?case using Cons.IH [OF rest] by simp
qed

lemma scan_first_Some:
  "first_image_item items = Some item \<Longrightarrow>
   \<exists>t. find (prefix ''image/'') (types item) = Some t \<and>
       scan_clipboardItems items =
         (case getType item t of Inl err \<Rightarrow> Inl err | Inr b \<Rightarrow> Inr (Some b))"
  unfolding first_image_item_def
proof (induction items)
  case Nil
  then show ?case by simp
next
  case (Cons a items)
  show ?case
  proof (cases "\<exists>t \<in> set (types a). prefix ''image/'' t")
    case True
    then have a: "a = item" using Cons.prems by simp
    from True obtain t where "find (prefix ''image/'') (types a) = Some t"
      by (cases "find (prefix ''image/'') (types a)") (auto simp: find_image_type_None)
    then show ?thesis using a by (auto split: sum.splits)
  next
    case False
    then have "find (prefix ''image/'') (types a) = None"
      by (simp add: find_image_type_None)
    moreover
    have "find (\<lambda>item. \<exists>t \<in> set (types item). prefix ''image/'' t) items = Some item"
      using False Cons.prems by simp
    ultimately show ?thesis using Cons.IH by simp
  qed
qed

lemma paste_fails_sets_error:
  "paste_fails r \<Longrightarrow>
   \<exists>m. m \<noteq> '''' \<and> handlePaste_resume img r s = s\<lparr>error := Some m\<rparr>"
  using handlePaste_catch_sets_error [of _ s]
  by (auto simp: paste_fails_def handlePaste_resume_def handlePaste_try_def msg_no_image_def
      split: sum.splits option.splits)

text \<open>
  What the adapter does, on the state in which each part of it runs. The loop takes the
  first clipboard item that has a type beginning with \<^verbatim>\<open>image/\<close>, reads it under the
  first such type, and the handler submits the blob to \<^verbatim>\<open>processImage\<close>. A missing
  clipboard read API, a refused permission and a clipboard without an image each set their
  own message, three different ones. Every failure path sets a non-empty ErrorMessage and
  changes nothing else: no \<^verbatim>\<open>recognize\<close> call is made, and the stage stays what it is
  when the path runs. Every throw of the \<^verbatim>\<open>try\<close> block ends in the \<^verbatim>\<open>catch\<close> branch,
  which sets a message: the handler's result is a state in all cases.
\<close>

lemma handlePaste_paths:
  "(first_image_item items = None \<longrightarrow> scan_clipboardItems items = Inr None) \<and>
   (first_image_item items = Some item \<longrightarrow>
      (\<exists>t. find (prefix ''image/'') (types item) = Some t \<and>
           scan_clipboardItems items =
             (case getType item t of Inl err \<Rightarrow> Inl err | Inr b \<Rightarrow> Inr (Some b)))) \<and>
   (scan_clipboardItems items = Inr (Some imageBlob) \<longrightarrow>
      handlePaste_resume img (Inr items) s = processImage_start img imageBlob s) \<and>
   handlePaste_click False s = s\<lparr>error := Some msg_clipboard_unsupported\<rparr> \<and>
   handlePaste_resume img (Inl (ErrorObject ''NotAllowedError'')) s =
     s\<lparr>error := Some msg_clipboard_denied\<rparr> \<and>
   (first_image_item items = None \<longrightarrow>
      handlePaste_resume img (Inr items) s = s\<lparr>error := Some msg_no_image\<rparr>) \<and>
   distinct [msg_clipboard_unsupported, msg_clipboard_denied, msg_no_image] \<and>
   (paste_fails r \<longrightarrow>
      (\<exists>m. m \<noteq> '''' \<and> handlePaste_resume img r s = s\<lparr>error := Some m\<rparr>) \<and>
      stage (handlePaste_resume img r s) = stage s \<and>
      recognize_jobs (handlePaste_resume img r s) = recognize_jobs s) \<and>
   (handlePaste_try img r s = Inl err \<longrightarrow>
      handlePaste_resume img r s = handlePaste_catch err s \<and>
      (\<exists>m. m \<noteq> '''' \<and> handlePaste_catch err s = s\<lparr>error := Some m\<rparr>))"
proof -
  have a: "first_image_item items = None \<longrightarrow> scan_clipboardItems items = Inr None"
    by (simp add: scan_first_None)
  have b: "first_image_item items = Some item \<longrightarrow>
      (\<exists>t. find (prefix ''image/'') (types item) = Some t \<and>
           scan_clipboardItems items =
             (case getType item t of Inl err \<Rightarrow> Inl err | Inr b \<Rightarrow> Inr (Some b)))"
    using scan_first_Some by blast
  have c: "scan_clipboardItems items = Inr (Some imageBlob) \<longrightarrow>
      handlePaste_resume img (Inr items) s = processImage_start img imageBlob s"
    by (simp add: handlePaste_resume_def handlePaste_try_def)
  have d: "handlePaste_click False s = s\<lparr>error := Some msg_clipboard_unsupported\<rparr>"
    by (simp add: handlePaste_click_def)
  have e: "handlePaste_resume img (Inl (ErrorObject ''NotAllowedError'')) s =
     s\<lparr>error := Some msg_clipboard_denied\<rparr>"
    by (simp add: handlePaste_resume_def handlePaste_try_def handlePaste_catch_def)
  have f: "first_image_item items = None \<longrightarrow>
      handlePaste_resume img (Inr items) s = s\<lparr>error := Some msg_no_image\<rparr>"
    by (simp add: scan_first_None handlePaste_resume_def handlePaste_try_def)
  have g: "distinct [msg_clipboard_unsupported, msg_clipboard_denied, msg_no_image]"
    by (simp add: msg_clipboard_unsupported_def msg_clipboard_denied_def msg_no_image_def)
  have h: "paste_fails r \<longrightarrow>
      (\<exists>m. m \<noteq> '''' \<and> handlePaste_resume img r s = s\<lparr>error := Some m\<rparr>) \<and>
      stage (handlePaste_resume img r s) = stage s \<and>
      recognize_jobs (handlePaste_resume img r s) = recognize_jobs s"
  proof
    assume "paste_fails r"
    then obtain m where "m \<noteq> ''''" "handlePaste_resume img r s = s\<lparr>error := Some m\<rparr>"
      using paste_fails_sets_error by blast
    then show "(\<exists>m. m \<noteq> '''' \<and> handlePaste_resume img r s = s\<lparr>error := Some m\<rparr>) \<and>
      stage (handlePaste_resume img r s) = stage s \<and>
      recognize_jobs (handlePaste_resume img r s) = recognize_jobs s"
      by auto
  qed
  have i: "handlePaste_try img r s = Inl err \<longrightarrow>
      handlePaste_resume img r s = handlePaste_catch err s \<and>
      (\<exists>m. m \<noteq> '''' \<and> handlePaste_catch err s = s\<lparr>error := Some m\<rparr>)"
    using handlePaste_catch_sets_error [of err s] by (simp add: handlePaste_resume_def)
  from a b c d e f g h i show ?thesis by blast
qed

text \<open>
  Claim C7 fails on the code in one point: a failure path does not leave the stage at
  \<open>Idle\<close> when the stage has moved since the click. The acquisition buttons stay enabled
  while the clipboard read is pending; a file uploaded in the meantime is being recognized
  when the read delivers a clipboard without an image. The handler sets its message and
  makes no \<^verbatim>\<open>recognize\<close> call of its own, but the stage is \<open>Recognizing\<close>, with the
  upload's recognition in flight.
\<close>

theorem paste_failure_in_stage_recognizing:
  "error (run paste_without_image_during_recognition) = Some msg_no_image \<and>
   stage (run paste_without_image_during_recognition) = Recognizing \<and>
   recognize_jobs (run paste_without_image_during_recognition) = [photo_png]"
  by (simp add: all_defs Let_def)

section \<open>A recognition that rejects\<close>



section \<open>Reset\<close>

text \<open>
  What \<^verbatim>\<open>handleReset\<close> does, on every state. Applied twice it gives the state that one
  application gives: stage \<open>Idle\<close>, empty RecognizedText, no ErrorMessage, ProgressState
  empty and zero, no preview handle. It revokes the object URL of the preview handle and
  no other one.
\<close>

lemma handleReset_idempotent:
  "handleReset (handleReset s) = handleReset s \<and>
   stage (handleReset s) = Idle \<and>
   text' (handleReset s) = '''' \<and>
   error (handleReset s) = None \<and>
   progress (handleReset s) = \<lparr>status = '''', fraction = 0\<rparr> \<and>
   image' (handleReset s) = None \<and>
   object_urls (handleReset s) = object_urls s - set_option (image' s)"
  by (cases "image' s"; cases "inputRef s")
    (simp_all add: handleReset_def revokeObjectURL_def)

text \<open>
  Claim C9 fails on the code in one point: after a reset an object URL can still be alive.
  After two clicks on the paste button, both before the first read settles, the first
  image's URL was never revoked and is no longer the preview handle. When both recognitions
  have resolved and the reset button is clicked, \<^verbatim>\<open>handleReset\<close> revokes the preview
  handle only: the state is the reset one, and the first URL stays alive.
\<close>

theorem url_alive_after_reset:
  "stage (run double_paste_then_reset) = Idle \<and>
   text' (run double_paste_then_reset) = '''' \<and>
   error (run double_paste_then_reset) = None \<and>
   progress (run double_paste_then_reset) = \<lparr>status = '''', fraction = 0\<rparr> \<and>
   image' (run double_paste_then_reset) = None \<and>
   object_urls (run double_paste_then_reset) = {BlobUrl 0} \<and>
   handleReset (run double_paste_then_reset) = run double_paste_then_reset"
  by (simp add: all_defs Let_def)

section \<open>An empty result\<close>

text \<open>
  Claim C10. When \<^verbatim>\<open>recognize\<close> resolves with the empty text, the stage becomes \<open>Done\<close>
  and RecognizedText is the empty string; a file whose image holds no text leads there.
  So stage \<open>Done\<close> does not tell that RecognizedText is non-empty.
\<close>

theorem empty_result_reaches_done:
  "stage (processImage_settled (Inr '''') s) = Done \<and>
   text' (processImage_settled (Inr '''') s) = '''' \<and>
   stage (run empty_result_trace) = Done \<and>
   text' (run empty_result_trace) = ''''"
  by (simp add: all_defs Let_def)

text \<open>
  In that state the view renders neither the acquisition controls (the stage is \<open>Done\<close>)
  nor the reset button (there is no text).
\<close>

lemma empty_result_renders_no_control:
  "\<not> acquisition_rendered (run empty_result_trace) \<and>
   \<not> result_rendered (run empty_result_trace)"
  by (simp add: all_defs Let_def)

end
